theory Spec2Isabelle
  imports Main "HOL-Library.AList" "HOL-Library.Char_ord" "HOL-Library.List_Lexorder" "HOL-Library.Sublist"
begin

section \<open>The file system the tool works on\<close>

text \<open>
  \<^verbatim>\<open>unitysync.py\<close> reads and writes directory trees through \<^verbatim>\<open>os.path\<close>,
  \<^verbatim>\<open>shutil\<close> and \<^verbatim>\<open>filecmp.dircmp\<close>. The file system is a tree: a regular file with
  its bytes and modification time (what \<^verbatim>\<open>filecmp\<close> looks at), or a directory with its
  named entries. A path string is represented resolved, by the list of its components
  from the file-system root; \<^verbatim>\<open>os.path.join(d, n)\<close> is \<open>d @ [n]\<close>. Symbolic links,
  permissions and special files are not part of the model.
\<close>

type_synonym name = string
type_synonym path = "name list"

datatype node = File (content: string) (mtime: nat) | Dir (entries: "(name \<times> node) list")

fun lookup :: "node \<Rightarrow> path \<Rightarrow> node option" where
  "lookup n [] = Some n"
| "lookup (File c m) (x # p) = None"
| "lookup (Dir es) (x # p) = (case map_of es x of None \<Rightarrow> None | Some n \<Rightarrow> lookup n p)"

definition exists :: "node \<Rightarrow> path \<Rightarrow> bool" where
  "exists t p = (lookup t p \<noteq> None)"

text \<open>\<^verbatim>\<open>os.path.isdir\<close> and \<^verbatim>\<open>os.path.isfile\<close>.\<close>

definition isdir :: "node \<Rightarrow> path \<Rightarrow> bool" where
  "isdir t p = (case lookup t p of Some (Dir es) \<Rightarrow> True | _ \<Rightarrow> False)"

definition isfile :: "node \<Rightarrow> path \<Rightarrow> bool" where
  "isfile t p = (case lookup t p of Some (File c m) \<Rightarrow> True | _ \<Rightarrow> False)"

text \<open>
  Writing node \<open>v\<close> at a path, creating the missing directories on the way as
  \<^verbatim>\<open>os.makedirs\<close> does; \<open>None\<close> when a regular file is in the way.
\<close>

fun mkput :: "node \<Rightarrow> path \<Rightarrow> node \<Rightarrow> node option" where
  "mkput n [] v = Some v"
| "mkput (File c m) (x # p) v = None"
| "mkput (Dir es) (x # p) v =
     (case mkput (case map_of es x of None \<Rightarrow> Dir [] | Some n \<Rightarrow> n) p v of
        None \<Rightarrow> None
      | Some n' \<Rightarrow> Some (Dir (AList.update x n' es)))"

text \<open>Unlinking the entry at a path (with everything below it).\<close>

fun delete :: "node \<Rightarrow> path \<Rightarrow> node" where
  "delete n [] = n"
| "delete (File c m) (x # p) = File c m"
| "delete (Dir es) [x] = Dir (AList.delete x es)"
| "delete (Dir es) (x # p) =
     (case map_of es x of None \<Rightarrow> Dir es | Some n \<Rightarrow> Dir (AList.update x (delete n p) es))"

datatype error =
    FileNotFoundError | FileExistsError | IsADirectoryError | NotADirectoryError
  | SameFileError | PermissionError | RecursionError | JSONDecodeError | NameError | TypeError

text \<open>
  The error for a path that is not there: \<^verbatim>\<open>ENOTDIR\<close> when the path runs through a
  regular file, \<^verbatim>\<open>ENOENT\<close> otherwise.
\<close>

definition through_file :: "node \<Rightarrow> path \<Rightarrow> bool" where
  "through_file t p = list_ex (\<lambda>q. q \<noteq> p \<and> isfile t q) (prefixes p)"

definition missing :: "node \<Rightarrow> path \<Rightarrow> error" where
  "missing t p = (if through_file t p then NotADirectoryError else FileNotFoundError)"

text \<open>\<^verbatim>\<open>os.listdir\<close>.\<close>

definition listdir :: "node \<Rightarrow> path \<Rightarrow> error + name list" where
  "listdir t p =
     (case lookup t p of
        None \<Rightarrow> Inl (missing t p)
      | Some (File c m) \<Rightarrow> Inl NotADirectoryError
      | Some (Dir es) \<Rightarrow> Inr (remdups (map fst es)))"

text \<open>
  \<^verbatim>\<open>shutil.copy2(src, dst)\<close>: a directory \<open>dst\<close> means "into it, under the same name";
  the bytes and the modification time of \<open>src\<close> are written to the target, whose
  directory has to exist.
\<close>

definition basename :: "path \<Rightarrow> name" where
  "basename p = (if p = [] then [] else last p)"

definition copy2 :: "path \<Rightarrow> path \<Rightarrow> node \<Rightarrow> error + node" where
  "copy2 src dst t =
     (let tgt = (if isdir t dst then dst @ [basename src] else dst) in
      if exists t src \<and> tgt = src then Inl SameFileError
      else case lookup t src of
        None \<Rightarrow> Inl (missing t src)
      | Some (Dir es) \<Rightarrow> Inl IsADirectoryError
      | Some (File c m) \<Rightarrow>
          if isdir t tgt then Inl IsADirectoryError
          else if tgt = [] \<or> \<not> isdir t (butlast tgt) then Inl (missing t tgt)
          else (case mkput t tgt (File c m) of
                  None \<Rightarrow> Inl NotADirectoryError
                | Some t' \<Rightarrow> Inr t'))"

text \<open>
  \<^verbatim>\<open>shutil.copytree(src, dst)\<close>: \<open>src\<close> is listed, \<^verbatim>\<open>os.makedirs(dst)\<close> refuses an
  existing \<open>dst\<close> and creates the missing directories on the way, then every entry
  listed is copied with \<^verbatim>\<open>copy2\<close> (files) or recursively (directories), so \<open>dst\<close>
  becomes a copy of the tree at \<open>src\<close> as it was listed. This also holds for a new
  entry of \<open>src\<close> itself, and for a destination below a name that \<open>src\<close> did not
  have. A destination deeper inside an existing directory of \<open>src\<close> is reached by the
  recursion, which then descends into its own output until the operating system
  refuses: \<open>runaway\<close>. That run is modelled by its error alone; the directories it
  leaves behind below \<open>dst\<close> are not modelled, and every caller abandons the run there.
\<close>

definition runaway :: "node \<Rightarrow> path \<Rightarrow> path \<Rightarrow> bool" where
  "runaway t src dst =
     (prefix src dst \<and> length src + 1 < length dst \<and> isdir t (take (Suc (length src)) dst))"

definition copytree :: "path \<Rightarrow> path \<Rightarrow> node \<Rightarrow> error + node" where
  "copytree src dst t =
     (case lookup t src of
        None \<Rightarrow> Inl (missing t src)
      | Some (File c m) \<Rightarrow> Inl NotADirectoryError
      | Some (Dir es) \<Rightarrow>
          if exists t dst then Inl FileExistsError
          else if runaway t src dst then Inl RecursionError
          else (case mkput t dst (Dir es) of
                  None \<Rightarrow> Inl NotADirectoryError
                | Some t' \<Rightarrow> Inr t'))"

text \<open>\<^verbatim>\<open>shutil.rmtree(path)\<close> on a directory and \<^verbatim>\<open>os.remove(path)\<close> on anything else.\<close>

definition rmtree :: "path \<Rightarrow> node \<Rightarrow> error + node" where
  "rmtree p t =
     (if p = [] then Inl PermissionError
      else case lookup t p of
        None \<Rightarrow> Inl (missing t p)
      | Some (File c m) \<Rightarrow> Inl NotADirectoryError
      | Some (Dir es) \<Rightarrow> Inr (delete t p))"

definition os_remove :: "path \<Rightarrow> node \<Rightarrow> error + node" where
  "os_remove p t =
     (case lookup t p of
        None \<Rightarrow> Inl (missing t p)
      | Some (Dir es) \<Rightarrow> Inl IsADirectoryError
      | Some (File c m) \<Rightarrow> Inr (delete t p))"

section \<open>Process state, output and results\<close>

text \<open>
  Every \<^verbatim>\<open>print\<close> of the program is one message appended to the output. The state is
  the file system, the current directory of the process (relative paths are resolved
  against it) and the output so far.
\<close>

datatype msg =
    Banner string
  | WithProject path
  | Copying path path
  | Removing path
  | L path
  | R path
  | D path
  | NoDependFile name

record state =
  fs :: node
  cwd :: path
  out :: "msg list"

datatype 'a result = Ok 'a | Raise error | OutOfFuel

definition print :: "msg \<Rightarrow> state \<Rightarrow> state" where
  "print m s = s\<lparr>out := out s @ [m]\<rparr>"

text \<open>A path string extended by a suffix, as in \<^verbatim>\<open>dest + '.meta'\<close>.\<close>

definition add_suffix :: "path \<Rightarrow> string \<Rightarrow> path" where
  "add_suffix p sfx = (if p = [] then [sfx] else butlast p @ [last p @ sfx])"

text \<open>A relative path string is resolved against the current directory.\<close>

definition relative :: "state \<Rightarrow> path \<Rightarrow> path" where
  "relative s p = cwd s @ p"

text \<open>Sequencing: an exception (or the end of the fuel) abandons the rest.\<close>

definition bind ::
  "(state \<Rightarrow> 'a result \<times> state) \<Rightarrow> ('a \<Rightarrow> state \<Rightarrow> 'b result \<times> state) \<Rightarrow>
   state \<Rightarrow> 'b result \<times> state" where
  "bind m f s =
     (case m s of
        (Ok v, s') \<Rightarrow> f v s'
      | (Raise e, s') \<Rightarrow> (Raise e, s')
      | (OutOfFuel, s') \<Rightarrow> (OutOfFuel, s'))"

fun for_each :: "('a \<Rightarrow> state \<Rightarrow> unit result \<times> state) \<Rightarrow> 'a list \<Rightarrow> state \<Rightarrow> unit result \<times> state" where
  "for_each f [] s = (Ok (), s)"
| "for_each f (x # xs) s = bind (f x) (\<lambda>u. for_each f xs) s"

section \<open>The comparers\<close>

datatype comparer =
    DiffComparer
  | PullComparer (pull_clean: bool) (pull_preview: bool)
  | PushComparer (push_clean: bool) (push_preview: bool)

text \<open>\<^verbatim>\<open>AssetComparer.__init__\<close>: \<^verbatim>\<open>DiffComparer\<close> passes \<^verbatim>\<open>False\<close>.\<close>

fun preview :: "comparer \<Rightarrow> bool" where
  "preview DiffComparer = False"
| "preview (PullComparer cl pv) = pv"
| "preview (PushComparer cl pv) = pv"

text \<open>
  \<^verbatim>\<open>AssetComparer.copy_asset\<close> (lines 32-45). Line 43 reads
  \<^verbatim>\<open>src_metafile = src = '.meta'\<close>: both names are bound to the relative path
  \<^verbatim>\<open>'.meta'\<close>, which is what line 44 tests and line 45 copies.
\<close>

definition copy_asset :: "comparer \<Rightarrow> path \<Rightarrow> path \<Rightarrow> state \<Rightarrow> unit result \<times> state" where
  "copy_asset c src dest s =
     (let s1 = print (Copying src dest) s in
      if preview c then (Ok (), s1)
      else case (if isdir (fs s1) src then copytree src dest (fs s1)
                 else copy2 src dest (fs s1)) of
        Inl e \<Rightarrow> (Raise e, s1)
      | Inr t \<Rightarrow>
          (let s2 = s1\<lparr>fs := t\<rparr>;
               src_metafile = relative s2 [''.meta'']
           in if isfile (fs s2) src_metafile then
                (case copy2 src_metafile (add_suffix dest ''.meta'') (fs s2) of
                   Inl e \<Rightarrow> (Raise e, s2)
                 | Inr t' \<Rightarrow> (Ok (), s2\<lparr>fs := t'\<rparr>))
              else (Ok (), s2)))"

text \<open>\<^verbatim>\<open>AssetComparer.remove_asset\<close> (lines 47-56).\<close>

definition remove_asset :: "comparer \<Rightarrow> path \<Rightarrow> state \<Rightarrow> unit result \<times> state" where
  "remove_asset c p s =
     (let s1 = print (Removing p) s in
      if preview c then (Ok (), s1)
      else case (if isdir (fs s1) p then rmtree p (fs s1) else os_remove p (fs s1)) of
        Inl e \<Rightarrow> (Raise e, s1)
      | Inr t \<Rightarrow> (Ok (), s1\<lparr>fs := t\<rparr>))"

text \<open>\<^verbatim>\<open>validate\<close> of the three comparers (lines 62-71, 87-95, 112-120).\<close>

fun validate :: "comparer \<Rightarrow> path \<Rightarrow> path \<Rightarrow> state \<Rightarrow> bool result \<times> state" where
  "validate DiffComparer origin local s =
     (if \<not> isdir (fs s) local then (Ok False, print (L origin) s)
      else if \<not> isdir (fs s) origin then (Ok False, print (R local) s)
      else (Ok True, s))"
| "validate (PullComparer cl pv) origin local s =
     (if \<not> isdir (fs s) local then
        bind (copy_asset (PullComparer cl pv) origin local) (\<lambda>u s'. (Ok False, s')) s
      else if \<not> isdir (fs s) origin then (Ok False, s)
      else (Ok True, s))"
| "validate (PushComparer cl pv) origin local s =
     (if \<not> isdir (fs s) local then (Ok False, s)
      else if \<not> isdir (fs s) origin then
        bind (copy_asset (PushComparer cl pv) local origin) (\<lambda>u s'. (Ok False, s')) s
      else (Ok True, s))"

text \<open>
  The handlers \<^verbatim>\<open>left_only\<close>, \<^verbatim>\<open>right_only\<close> and \<^verbatim>\<open>diff\<close> (lines 73-80, 97-105,
  122-130); \<open>left\<close> and \<open>right\<close> are \<^verbatim>\<open>dcmp.left\<close> and \<^verbatim>\<open>dcmp.right\<close>.
\<close>

fun left_only :: "comparer \<Rightarrow> path \<Rightarrow> path \<Rightarrow> name \<Rightarrow> state \<Rightarrow> unit result \<times> state" where
  "left_only DiffComparer left right asset s = (Ok (), print (L (left @ [asset])) s)"
| "left_only (PullComparer cl pv) left right asset s =
     copy_asset (PullComparer cl pv) (left @ [asset]) (right @ [asset]) s"
| "left_only (PushComparer cl pv) left right asset s =
     (if cl then remove_asset (PushComparer cl pv) (left @ [asset]) s else (Ok (), s))"

fun right_only :: "comparer \<Rightarrow> path \<Rightarrow> path \<Rightarrow> name \<Rightarrow> state \<Rightarrow> unit result \<times> state" where
  "right_only DiffComparer left right asset s = (Ok (), print (R (right @ [asset])) s)"
| "right_only (PullComparer cl pv) left right asset s =
     (if cl then remove_asset (PullComparer cl pv) (right @ [asset]) s else (Ok (), s))"
| "right_only (PushComparer cl pv) left right asset s =
     copy_asset (PushComparer cl pv) (right @ [asset]) (left @ [asset]) s"

fun diff :: "comparer \<Rightarrow> path \<Rightarrow> path \<Rightarrow> name \<Rightarrow> state \<Rightarrow> unit result \<times> state" where
  "diff DiffComparer left right asset s = (Ok (), print (D (right @ [asset])) s)"
| "diff (PullComparer cl pv) left right asset s =
     copy_asset (PullComparer cl pv) (left @ [asset]) (right @ [asset]) s"
| "diff (PushComparer cl pv) left right asset s =
     copy_asset (PushComparer cl pv) (right @ [asset]) (left @ [asset]) s"

section \<open>Directory comparison\<close>

text \<open>
  \<^verbatim>\<open>filecmp.dircmp(a, b)\<close> of the Python library, with its default \<^verbatim>\<open>ignore\<close> and
  \<^verbatim>\<open>hide\<close> lists. Its attributes are computed on first access, in phases:
  \<^verbatim>\<open>left_only\<close> and \<^verbatim>\<open>right_only\<close> list both directories (phases 0 and 1),
  \<^verbatim>\<open>diff_files\<close> stats and compares the common names (phases 2 and 3), \<^verbatim>\<open>subdirs\<close>
  holds one new comparison for each common directory (phase 4).
\<close>

definition DEFAULT_IGNORES :: "name list" where
  "DEFAULT_IGNORES =
     [''RCS'', ''CVS'', ''tags'', ''.git'', ''.hg'', ''.bzr'', ''_darcs'', ''__pycache__'']"

definition hide :: "name list" where
  "hide = [''.'', ''..'']"

definition filter_names :: "name list \<Rightarrow> name list \<Rightarrow> name list" where
  "filter_names flist skip = filter (\<lambda>x. x \<notin> set skip) flist"

definition phase0 :: "node \<Rightarrow> path \<Rightarrow> path \<Rightarrow> error + (name list \<times> name list)" where
  "phase0 t left right =
     (case listdir t left of
        Inl e \<Rightarrow> Inl e
      | Inr ll \<Rightarrow>
          (case listdir t right of
             Inl e \<Rightarrow> Inl e
           | Inr rl \<Rightarrow>
               Inr (sort (filter_names ll (hide @ DEFAULT_IGNORES)),
                    sort (filter_names rl (hide @ DEFAULT_IGNORES)))))"

text \<open>Phase 1: \<open>(common, left_only, right_only)\<close>.\<close>

definition phase1 :: "name list \<Rightarrow> name list \<Rightarrow> name list \<times> name list \<times> name list" where
  "phase1 left_list right_list =
     (filter (\<lambda>x. x \<in> set right_list) left_list,
      filter (\<lambda>x. x \<notin> set right_list) left_list,
      filter (\<lambda>x. x \<notin> set left_list) right_list)"

datatype ftype = S_IFDIR | S_IFREG

definition stat_type :: "node \<Rightarrow> path \<Rightarrow> ftype option" where
  "stat_type t p =
     (case lookup t p of
        None \<Rightarrow> None
      | Some (Dir es) \<Rightarrow> Some S_IFDIR
      | Some (File c m) \<Rightarrow> Some S_IFREG)"

datatype common_class = CommonDir | CommonFile | CommonFunny

text \<open>Phase 2, for one common name: a name that cannot be stat'ed on a side, or
  whose two types differ, is "funny".\<close>

definition classify :: "node \<Rightarrow> path \<Rightarrow> path \<Rightarrow> name \<Rightarrow> common_class" where
  "classify t left right x =
     (case (stat_type t (left @ [x]), stat_type t (right @ [x])) of
        (Some a_type, Some b_type) \<Rightarrow>
          if a_type \<noteq> b_type then CommonFunny
          else if a_type = S_IFDIR then CommonDir
          else if a_type = S_IFREG then CommonFile
          else CommonFunny
      | _ \<Rightarrow> CommonFunny)"

text \<open>Phase 2: \<open>(common_dirs, common_files, common_funny)\<close>.\<close>

definition phase2 ::
  "node \<Rightarrow> path \<Rightarrow> path \<Rightarrow> name list \<Rightarrow> name list \<times> name list \<times> name list" where
  "phase2 t left right common =
     (filter (\<lambda>x. classify t left right x = CommonDir) common,
      filter (\<lambda>x. classify t left right x = CommonFile) common,
      filter (\<lambda>x. classify t left right x = CommonFunny) common)"

text \<open>
  \<^verbatim>\<open>filecmp.cmp(f1, f2)\<close> with \<^verbatim>\<open>shallow=True\<close>: equal signatures (type, size,
  modification time) count as equal files; otherwise the sizes and then the bytes decide.
\<close>

definition cmp :: "node \<Rightarrow> path \<Rightarrow> path \<Rightarrow> error + bool" where
  "cmp t f1 f2 =
     (case (lookup t f1, lookup t f2) of
        (Some (File c1 m1), Some (File c2 m2)) \<Rightarrow>
          if (length c1, m1) = (length c2, m2) then Inr True
          else if length c1 \<noteq> length c2 then Inr False
          else Inr (c1 = c2)
      | (Some n1, Some n2) \<Rightarrow> Inr False
      | _ \<Rightarrow> Inl FileNotFoundError)"

text \<open>Phase 3: \<open>(same_files, diff_files, funny_files)\<close> of \<^verbatim>\<open>cmpfiles\<close>.\<close>

definition phase3 ::
  "node \<Rightarrow> path \<Rightarrow> path \<Rightarrow> name list \<Rightarrow> name list \<times> name list \<times> name list" where
  "phase3 t left right common_files =
     (filter (\<lambda>x. cmp t (left @ [x]) (right @ [x]) = Inr True) common_files,
      filter (\<lambda>x. cmp t (left @ [x]) (right @ [x]) = Inr False) common_files,
      filter (\<lambda>x. case cmp t (left @ [x]) (right @ [x]) of Inl e \<Rightarrow> True | Inr b \<Rightarrow> False)
        common_files)"

section \<open>The walk\<close>

text \<open>
  \<^verbatim>\<open>visit_dcmp\<close> (lines 132-145). The comparison object is given by its two paths.
  The first loop reads \<^verbatim>\<open>dcmp.left_only\<close>, which lists both directories; the third
  reads \<^verbatim>\<open>dcmp.diff_files\<close>, which stats and compares the common names in the file
  system as the first two loops left it; the last descends into the common
  directories found then. The depth of the descent is bounded by the fuel.
\<close>

fun visit_dcmp :: "nat \<Rightarrow> path \<Rightarrow> path \<Rightarrow> comparer \<Rightarrow> state \<Rightarrow> unit result \<times> state" where
  "visit_dcmp 0 left right comparer s = (OutOfFuel, s)"
| "visit_dcmp (Suc n) left right comparer s =
     (case phase0 (fs s) left right of
        Inl e \<Rightarrow> (Raise e, s)
      | Inr (left_list, right_list) \<Rightarrow>
          (case phase1 left_list right_list of
             (common, dcmp_left_only, dcmp_right_only) \<Rightarrow>
               bind (for_each (left_only comparer left right) dcmp_left_only) (\<lambda>u.
               bind (for_each (right_only comparer left right) dcmp_right_only) (\<lambda>u s2.
                 (case phase2 (fs s2) left right common of
                    (common_dirs, common_files, common_funny) \<Rightarrow>
                      (case phase3 (fs s2) left right common_files of
                         (same_files, diff_files, funny_files) \<Rightarrow>
                           bind (for_each (diff comparer left right) diff_files) (\<lambda>u.
                             for_each
                               (\<lambda>name. visit_dcmp n (left @ [name]) (right @ [name]) comparer)
                               common_dirs) s2)))) s))"

section \<open>The manifest and the commands\<close>

text \<open>\<^verbatim>\<open>local_root\<close> (lines 147-160): upwards from the current directory.\<close>

function local_root_from :: "node \<Rightarrow> name \<Rightarrow> path \<Rightarrow> path option" where
  "local_root_from t dependfile curdir =
     (if isfile t (curdir @ [dependfile]) then Some curdir
      else if curdir = [] then None
      else local_root_from t dependfile (butlast curdir))"
  by pat_completeness auto
termination
  by (relation "measure (\<lambda>(t, dependfile, curdir). length curdir)") auto

definition local_root :: "name \<Rightarrow> state \<Rightarrow> path option" where
  "local_root dependfile s = local_root_from (fs s) dependfile (cwd s)"

record project =
  proj_path :: path
  proj_assets :: "path list"

text \<open>
  \<^verbatim>\<open>load_conf\<close> (lines 162-170). The JSON parser is a parameter: it gives an error,
  \<open>None\<close> for a document whose value Python counts as false, or the \<^verbatim>\<open>projects\<close>
  of the manifest.
\<close>

definition load_conf ::
  "(string \<Rightarrow> error + project list option) \<Rightarrow> name \<Rightarrow> state \<Rightarrow> error + project list option" where
  "load_conf json_load dependfile s =
     (case local_root dependfile s of
        None \<Rightarrow> Inr None
      | Some root \<Rightarrow>
          (case lookup (fs s) (root @ [dependfile]) of
             Some (File c m) \<Rightarrow> json_load c
           | Some (Dir es) \<Rightarrow> Inl IsADirectoryError
           | None \<Rightarrow> Inl FileNotFoundError))"

record args =
  args_dependfile :: name
  args_clean :: bool
  args_preview :: bool

text \<open>
  \<^verbatim>\<open>compare_projects\<close> (lines 172-192). Line 175 formats the global name
  \<^verbatim>\<open>dependfile\<close>, which the module never binds: the lookup raises before \<^verbatim>\<open>print\<close>
  is called.
\<close>

definition compare_asset :: "nat \<Rightarrow> comparer \<Rightarrow> path \<Rightarrow> path \<Rightarrow> state \<Rightarrow> unit result \<times> state" where
  "compare_asset fuel comparer origin_path local_path =
     bind (validate comparer origin_path local_path) (\<lambda>ok.
       if \<not> ok then (\<lambda>s. (Ok (), s))
       else visit_dcmp fuel origin_path local_path comparer)"

definition compare_projects ::
  "(string \<Rightarrow> error + project list option) \<Rightarrow> nat \<Rightarrow> args \<Rightarrow> comparer \<Rightarrow> state \<Rightarrow>
   unit result \<times> state" where
  "compare_projects json_load fuel a comparer s =
     (case load_conf json_load (args_dependfile a) s of
        Inl e \<Rightarrow> (Raise e, s)
      | Inr None \<Rightarrow> (Raise NameError, s)
      | Inr (Some projects) \<Rightarrow>
          (case local_root (args_dependfile a) s of
             None \<Rightarrow> (Raise TypeError, s)
           | Some root \<Rightarrow>
               (let local_assets = root @ [''Assets''] in
                for_each (\<lambda>proj.
                  bind (\<lambda>s'. (Ok (), print (WithProject (proj_path proj)) s')) (\<lambda>u.
                    (let origin_assets = proj_path proj @ [''Assets''] in
                     for_each (\<lambda>asset.
                       compare_asset fuel comparer (origin_assets @ asset) (local_assets @ asset))
                       (proj_assets proj))))
                  projects s)))"

definition diff_cmd ::
  "(string \<Rightarrow> error + project list option) \<Rightarrow> nat \<Rightarrow> args \<Rightarrow> state \<Rightarrow> unit result \<times> state" where
  "diff_cmd json_load fuel a s =
     compare_projects json_load fuel a DiffComparer (print (Banner ''Comparing changes'') s)"

definition pull_cmd ::
  "(string \<Rightarrow> error + project list option) \<Rightarrow> nat \<Rightarrow> args \<Rightarrow> state \<Rightarrow> unit result \<times> state" where
  "pull_cmd json_load fuel a s =
     compare_projects json_load fuel a (PullComparer (args_clean a) (args_preview a))
       (print (Banner ''Pulling changes'') s)"

definition push_cmd ::
  "(string \<Rightarrow> error + project list option) \<Rightarrow> nat \<Rightarrow> args \<Rightarrow> state \<Rightarrow> unit result \<times> state" where
  "push_cmd json_load fuel a s =
     compare_projects json_load fuel a (PushComparer (args_clean a) (args_preview a))
       (print (Banner ''Pushing changes'') s)"

section \<open>Auxiliary notions for the statements\<close>

text \<open>With the preview flag set, and in the reporting comparer, nothing is written.\<close>

definition quiet_comparer :: "comparer \<Rightarrow> bool" where
  "quiet_comparer c = (c = DiffComparer \<or> preview c)"

text \<open>The messages that announce a copy or a removal.\<close>

fun is_action :: "msg \<Rightarrow> bool" where
  "is_action (Copying src dest) = True"
| "is_action (Removing p) = True"
| "is_action m = False"

text \<open>A small project pair: a manifest with one origin project and one asset folder.\<close>

definition example_manifest :: "string \<Rightarrow> error + project list option" where
  "example_manifest c =
     Inr (Some [\<lparr>proj_path = [''origin''], proj_assets = [[''Weapons'']]\<rparr>])"

definition example_tree :: node where
  "example_tree =
     Dir [(''origin'', Dir [(''Assets'', Dir [(''Weapons'',
             Dir [(''Foo'', File ''mesh'' 1), (''Foo.meta'', File ''guid'' 2),
                  (''old'', File ''x'' 3)])])]),
          (''game'', Dir [(''depend.json'', File ''{}'' 5),
             (''Assets'', Dir [(''Weapons'',
               Dir [(''Foo'', File ''stale'' 4), (''mine'', File ''y'' 6)])])])]"

definition example_state :: state where
  "example_state = \<lparr>fs = example_tree, cwd = [''game''], out = []\<rparr>"

definition example_args :: args where
  "example_args = \<lparr>args_dependfile = ''depend.json'', args_clean = False, args_preview = False\<rparr>"


text \<open>An origin \<^verbatim>\<open>/o\<close> and a local folder \<^verbatim>\<open>/l\<close> with a common directory, a name that
  is a file on one side and a directory on the other, and entries on one side only.\<close>

definition walk_tree :: node where
  "walk_tree =
     Dir [(''o'', Dir [(''a'', File ''1'' 1), (''sub'', Dir [(''deep'', File ''d'' 1)]),
                      (''x'', File ''f'' 1), (''gone'', Dir [(''g'', File [] 0)])]),
          (''l'', Dir [(''sub'', Dir []), (''x'', Dir []), (''b'', File ''2'' 2)])]"




text \<open>The sorted, filtered listing of a directory, as phase 0 keeps it.\<close>

definition listing :: "node \<Rightarrow> path \<Rightarrow> name list" where
  "listing t p =
     (case listdir t p of
        Inl e \<Rightarrow> []
      | Inr ns \<Rightarrow> sort (filter_names ns (hide @ DEFAULT_IGNORES)))"



definition dcmp_left_only :: "node \<Rightarrow> path \<Rightarrow> path \<Rightarrow> name list" where
  "dcmp_left_only t l r = filter (\<lambda>x. x \<notin> set (listing t r)) (listing t l)"

definition dcmp_right_only :: "node \<Rightarrow> path \<Rightarrow> path \<Rightarrow> name list" where
  "dcmp_right_only t l r = filter (\<lambda>x. x \<notin> set (listing t l)) (listing t r)"















section \<open>Sequencing and invariants of the walk\<close>

declare local_root_from.simps [simp del]

lemma bind_Ok: "m s = (Ok v, s') \<Longrightarrow> bind m f s = f v s'"
  by (simp add: bind_def)

lemma bind_Raise: "m s = (Raise e, s') \<Longrightarrow> bind m f s = (Raise e, s')"
  by (simp add: bind_def)

lemma bind_OutOfFuel: "m s = (OutOfFuel, s') \<Longrightarrow> bind m f s = (OutOfFuel, s')"
  by (simp add: bind_def)

lemma bind_inv:
  assumes "Q (snd (m s))" and "\<And>v s'. Q s' \<Longrightarrow> Q (snd (f v s'))"
  shows "Q (snd (bind m f s))"
proof (cases "m s")
  case (Pair r s')
  with assms show ?thesis
    by (cases r) (auto simp: bind_def)
qed

lemma for_each_inv:
  assumes "\<And>x s'. Q s' \<Longrightarrow> Q (snd (f x s'))" and "Q s"
  shows "Q (snd (for_each f xs s))"
  using assms(2)
proof (induction xs arbitrary: s)
  case Nil
  then show ?case by simp
next
  case (Cons x xs)
  show ?case
    unfolding for_each.simps
  proof (rule bind_inv [where Q = Q])
    show "Q (snd (f x s))" by (rule assms(1)) (rule Cons.prems)
    show "Q (snd (for_each f xs s'))" if "Q s'" for v s' using that by (rule Cons.IH)
  qed
qed

lemma visit_dcmp_inv:
  assumes lo: "\<And>l r x s'. Q s' \<Longrightarrow> Q (snd (left_only c l r x s'))"
    and ro: "\<And>l r x s'. Q s' \<Longrightarrow> Q (snd (right_only c l r x s'))"
    and df: "\<And>l r x s'. Q s' \<Longrightarrow> Q (snd (diff c l r x s'))"
  shows "Q s \<Longrightarrow> Q (snd (visit_dcmp n l r c s))"
proof (induction n arbitrary: l r s)
  case 0
  then show ?case by simp
next
  case (Suc n)
  show ?case
  proof (cases "phase0 (fs s) l r")
    case (Inl e)
    with Suc.prems show ?thesis by simp
  next
    case (Inr lists)
    obtain ll rl where lists: "lists = (ll, rl)" by (cases lists)
    obtain common dlo dro where p1: "phase1 ll rl = (common, dlo, dro)"
      by (cases "phase1 ll rl") auto
    have step3: "Q (snd ((\<lambda>s2. case phase2 (fs s2) l r common of
                    (common_dirs, common_files, common_funny) \<Rightarrow>
                      (case phase3 (fs s2) l r common_files of
                         (same_files, diff_files, funny_files) \<Rightarrow>
                           bind (for_each (diff c l r) diff_files) (\<lambda>u.
                             for_each
                               (\<lambda>name. visit_dcmp n (l @ [name]) (r @ [name]) c)
                               common_dirs) s2)) s2))" if "Q s2" for s2
    proof -
      obtain cd cf cfu where p2: "phase2 (fs s2) l r common = (cd, cf, cfu)"
        by (cases "phase2 (fs s2) l r common") auto
      obtain sf dfs ff where p3: "phase3 (fs s2) l r cf = (sf, dfs, ff)"
        by (cases "phase3 (fs s2) l r cf") auto
      have "Q (snd (bind (for_each (diff c l r) dfs) (\<lambda>u.
                             for_each
                               (\<lambda>name. visit_dcmp n (l @ [name]) (r @ [name]) c) cd) s2))"
      proof (rule bind_inv [where Q = Q])
        show "Q (snd (for_each (diff c l r) dfs s2))"
          by (rule for_each_inv [where Q = Q]) (rule df, assumption, rule that)
        show "Q (snd (for_each (\<lambda>name. visit_dcmp n (l @ [name]) (r @ [name]) c) cd s'))"
          if "Q s'" for v s'
          by (rule for_each_inv [where Q = Q]) (rule Suc.IH, assumption, rule that)
      qed
      with p2 p3 show ?thesis by simp
    qed
    have "Q (snd (bind (for_each (left_only c l r) dlo) (\<lambda>u.
               bind (for_each (right_only c l r) dro) (\<lambda>u s2.
                 (case phase2 (fs s2) l r common of
                    (common_dirs, common_files, common_funny) \<Rightarrow>
                      (case phase3 (fs s2) l r common_files of
                         (same_files, diff_files, funny_files) \<Rightarrow>
                           bind (for_each (diff c l r) diff_files) (\<lambda>u.
                             for_each
                               (\<lambda>name. visit_dcmp n (l @ [name]) (r @ [name]) c)
                               common_dirs) s2)))) s))"
    proof (rule bind_inv [where Q = Q])
      show "Q (snd (for_each (left_only c l r) dlo s))"
        by (rule for_each_inv [where Q = Q]) (rule lo, assumption, rule Suc.prems)
    next
      fix v s' assume s': "Q s'"
      show "Q (snd (bind (for_each (right_only c l r) dro) (\<lambda>u s2.
                 (case phase2 (fs s2) l r common of
                    (common_dirs, common_files, common_funny) \<Rightarrow>
                      (case phase3 (fs s2) l r common_files of
                         (same_files, diff_files, funny_files) \<Rightarrow>
                           bind (for_each (diff c l r) diff_files) (\<lambda>u.
                             for_each
                               (\<lambda>name. visit_dcmp n (l @ [name]) (r @ [name]) c)
                               common_dirs) s2))) s'))"
      proof (rule bind_inv [where Q = Q])
        show "Q (snd (for_each (right_only c l r) dro s'))"
          by (rule for_each_inv [where Q = Q]) (rule ro, assumption, rule s')
      qed (rule step3)
    qed
    with Inr lists p1 show ?thesis by simp
  qed
qed

lemma compare_asset_inv:
  assumes va: "\<And>o' l' s'. Q s' \<Longrightarrow> Q (snd (validate c o' l' s'))"
    and lo: "\<And>l r x s'. Q s' \<Longrightarrow> Q (snd (left_only c l r x s'))"
    and ro: "\<And>l r x s'. Q s' \<Longrightarrow> Q (snd (right_only c l r x s'))"
    and df: "\<And>l r x s'. Q s' \<Longrightarrow> Q (snd (diff c l r x s'))"
    and "Q s"
  shows "Q (snd (compare_asset fuel c origin local s))"
  unfolding compare_asset_def
proof (rule bind_inv [where Q = Q])
  show "Q (snd (validate c origin local s))" by (rule va) (rule assms(5))
  show "Q (snd ((if \<not> v then (\<lambda>s. (Ok (), s)) else visit_dcmp fuel origin local c) s'))"
    if "Q s'" for v s'
  proof (cases v)
    case True
    have "Q (snd (visit_dcmp fuel origin local c s'))"
      by (rule visit_dcmp_inv [where Q = Q]) (rule lo, assumption, rule ro, assumption,
          rule df, assumption, rule that)
    with True show ?thesis by simp
  next
    case False
    with that show ?thesis by simp
  qed
qed

lemma compare_projects_inv:
  assumes va: "\<And>o' l' s'. Q s' \<Longrightarrow> Q (snd (validate c o' l' s'))"
    and lo: "\<And>l r x s'. Q s' \<Longrightarrow> Q (snd (left_only c l r x s'))"
    and ro: "\<And>l r x s'. Q s' \<Longrightarrow> Q (snd (right_only c l r x s'))"
    and df: "\<And>l r x s'. Q s' \<Longrightarrow> Q (snd (diff c l r x s'))"
    and pr: "\<And>p s'. Q s' \<Longrightarrow> Q (print (WithProject p) s')"
    and "Q s"
  shows "Q (snd (compare_projects json_load fuel a c s))"
proof (cases "load_conf json_load (args_dependfile a) s")
  case (Inl e)
  with assms(6) show ?thesis by (simp add: compare_projects_def)
next
  case (Inr conf)
  show ?thesis
  proof (cases conf)
    case None
    with Inr assms(6) show ?thesis by (simp add: compare_projects_def)
  next
    case (Some projects)
    show ?thesis
    proof (cases "local_root (args_dependfile a) s")
      case None
      with Inr Some assms(6) show ?thesis by (simp add: compare_projects_def)
    next
      case (Some root)
      have "Q (snd (for_each (\<lambda>proj.
                  bind (\<lambda>s'. (Ok (), print (WithProject (proj_path proj)) s')) (\<lambda>u.
                     for_each (\<lambda>asset.
                       compare_asset fuel c ((proj_path proj @ [''Assets'']) @ asset)
                         ((root @ [''Assets'']) @ asset))
                       (proj_assets proj)))
                  projects s))"
      proof (rule for_each_inv [where Q = Q])
        fix proj s' assume s': "Q s'"
        show "Q (snd (bind (\<lambda>s'. (Ok (), print (WithProject (proj_path proj)) s')) (\<lambda>u.
                     for_each (\<lambda>asset.
                       compare_asset fuel c ((proj_path proj @ [''Assets'']) @ asset)
                         ((root @ [''Assets'']) @ asset))
                       (proj_assets proj)) s'))"
        proof (rule bind_inv [where Q = Q])
          show "Q (snd (Ok (), print (WithProject (proj_path proj)) s'))"
            using pr [OF s'] by simp
          show "Q (snd (for_each (\<lambda>asset.
                       compare_asset fuel c ((proj_path proj @ [''Assets'']) @ asset)
                         ((root @ [''Assets'']) @ asset))
                       (proj_assets proj) s''))" if "Q s''" for v s''
            by (rule for_each_inv [where Q = Q])
               (rule compare_asset_inv [where Q = Q, OF va lo ro df], assumption+, rule that)
        qed
      qed (rule assms(6))
      with Inr \<open>conf = Some projects\<close> Some show ?thesis
        by (simp add: compare_projects_def Let_def)
    qed
  qed
qed

lemma fs_print [simp]: "fs (print m s) = fs s"
  by (simp add: print_def)

lemma cwd_print [simp]: "cwd (print m s) = cwd s"
  by (simp add: print_def)

lemma out_print [simp]: "out (print m s) = out s @ [m]"
  by (simp add: print_def)

lemma copy_asset_preview:
  "preview c \<Longrightarrow> copy_asset c src dest s = (Ok (), print (Copying src dest) s)"
  by (simp add: copy_asset_def)

lemma remove_asset_preview:
  "preview c \<Longrightarrow> remove_asset c p s = (Ok (), print (Removing p) s)"
  by (simp add: remove_asset_def)

lemma quiet_validate: "quiet_comparer c \<Longrightarrow> fs (snd (validate c origin local s)) = fs s"
  by (cases c) (auto simp: quiet_comparer_def copy_asset_preview bind_def)

lemma quiet_left_only: "quiet_comparer c \<Longrightarrow> fs (snd (left_only c l r x s)) = fs s"
  by (cases c) (auto simp: quiet_comparer_def copy_asset_preview remove_asset_preview)

lemma quiet_right_only: "quiet_comparer c \<Longrightarrow> fs (snd (right_only c l r x s)) = fs s"
  by (cases c) (auto simp: quiet_comparer_def copy_asset_preview remove_asset_preview)

lemma quiet_diff: "quiet_comparer c \<Longrightarrow> fs (snd (diff c l r x s)) = fs s"
  by (cases c) (auto simp: quiet_comparer_def copy_asset_preview remove_asset_preview)

lemma quiet_compare_projects:
  assumes "quiet_comparer c"
  shows "fs (snd (compare_projects json_load fuel a c s)) = fs s"
proof -
  have "(\<lambda>s'. fs s' = fs s) (snd (compare_projects json_load fuel a c s))"
    by (rule compare_projects_inv [where Q = "\<lambda>s'. fs s' = fs s"])
       (simp_all add: quiet_validate quiet_left_only quiet_right_only quiet_diff assms)
  then show ?thesis .
qed

lemma local_root_from_None:
  "local_root_from t d p = None \<longleftrightarrow> (\<forall>q. prefix q p \<longrightarrow> \<not> isfile t (q @ [d]))"
proof (induction t d p rule: local_root_from.induct)
  case (1 t d p)
  show ?case
  proof (cases "isfile t (p @ [d])")
    case True
    then show ?thesis by (subst local_root_from.simps) auto
  next
    case nf: False
    show ?thesis
    proof (cases "p = []")
      case True
      with nf show ?thesis by (subst local_root_from.simps) simp
    next
      case False
      then have p: "p = butlast p @ [last p]" by simp
      have "prefix q p \<longleftrightarrow> q = p \<or> prefix q (butlast p)" for q
        by (subst p, subst prefix_snoc) (simp add: False)
      with 1 nf False show ?thesis
        by (subst local_root_from.simps) auto
    qed
  qed
qed

lemma compare_projects_no_manifest:
  assumes "\<forall>q. prefix q (cwd s) \<longrightarrow> \<not> isfile (fs s) (q @ [args_dependfile a])"
  shows "compare_projects json_load fuel a c s = (Raise NameError, s)"
proof -
  have "local_root (args_dependfile a) s = None"
    using assms by (simp add: local_root_def local_root_from_None)
  then show ?thesis
    by (simp add: compare_projects_def load_conf_def)
qed

text \<open>
  Claim C2. When no file named as the manifest exists in the current directory or in any
  of its ancestors, the claim expects the run to report the missing manifest and to
  leave the file system alone. Every subcommand leaves the file system alone, but none
  reports: each ends with the exception \<open>NameError\<close> of line 175 after its banner,
  and the message \<open>NoDependFile\<close> is never printed.
\<close>

theorem missing_manifest_raises_NameError:
  assumes "\<forall>q. prefix q (cwd s) \<longrightarrow> \<not> isfile (fs s) (q @ [args_dependfile a])"
  shows "diff_cmd json_load fuel a s = (Raise NameError, print (Banner ''Comparing changes'') s)
       \<and> pull_cmd json_load fuel a s = (Raise NameError, print (Banner ''Pulling changes'') s)
       \<and> push_cmd json_load fuel a s = (Raise NameError, print (Banner ''Pushing changes'') s)"
  using assms
  by (simp add: diff_cmd_def pull_cmd_def push_cmd_def compare_projects_no_manifest)

theorem missing_manifest_raises_NameError_witness:
  "diff_cmd example_manifest 3 example_args (example_state\<lparr>cwd := [''origin'']\<rparr>) =
     (Raise NameError,
      \<lparr>fs = example_tree, cwd = [''origin''], out = [Banner ''Comparing changes'']\<rparr>)"
proof -
  have h: "\<forall>q. prefix q (cwd (example_state\<lparr>cwd := [''origin'']\<rparr>)) \<longrightarrow>
      \<not> isfile (fs (example_state\<lparr>cwd := [''origin'']\<rparr>)) (q @ [args_dependfile example_args])"
    by (auto simp: example_state_def example_args_def example_tree_def isfile_def prefix_Cons
        split: list.splits)
  from missing_manifest_raises_NameError [OF h, of example_manifest 3]
  show ?thesis
    by (simp add: example_state_def example_args_def print_def)
qed

text \<open>
  Claim C1. With preview off and a sidecar \<^verbatim>\<open>Foo.meta\<close> next to the source asset
  \<^verbatim>\<open>Foo\<close>, the claim expects the sidecar at the destination after the copy. The
  copy of \<^verbatim>\<open>Foo\<close> to \<^verbatim>\<open>Bar\<close> succeeds and leaves no \<^verbatim>\<open>Bar.meta\<close>: line 43 tests
  the relative path \<^verbatim>\<open>.meta\<close> instead of \<^verbatim>\<open>src + '.meta'\<close>.
\<close>

theorem copy_asset_ignores_sidecar:
  "isfile example_tree [''origin'', ''Assets'', ''Weapons'', ''Foo.meta'']
   \<and> \<not> preview (PullComparer False False)
   \<and> fst (copy_asset (PullComparer False False) [''origin'', ''Assets'', ''Weapons'', ''Foo'']
        [''game'', ''Assets'', ''Weapons'', ''Bar''] example_state) = Ok ()
   \<and> lookup (fs (snd (copy_asset (PullComparer False False)
        [''origin'', ''Assets'', ''Weapons'', ''Foo'']
        [''game'', ''Assets'', ''Weapons'', ''Bar''] example_state)))
        [''game'', ''Assets'', ''Weapons'', ''Bar''] = Some (File ''mesh'' 1)
   \<and> lookup (fs (snd (copy_asset (PullComparer False False)
        [''origin'', ''Assets'', ''Weapons'', ''Foo'']
        [''game'', ''Assets'', ''Weapons'', ''Bar''] example_state)))
        [''game'', ''Assets'', ''Weapons'', ''Bar.meta''] = None"
  by code_simp

text \<open>
  Claim C10. The diff subcommand never changes the file system: for every manifest
  parser, fuel, arguments and state, the file system after \<open>diff_cmd\<close> is the one
  before, the output grows by messages that announce no copy and no removal, and the
  handlers of \<open>DiffComparer\<close> only print a path.
\<close>

theorem diff_never_mutates:
  "fs (snd (diff_cmd json_load fuel a s)) = fs s
   \<and> (\<exists>ms. out (snd (diff_cmd json_load fuel a s)) = out s @ ms \<and> filter is_action ms = [])
   \<and> fs (snd (validate DiffComparer origin local s')) = fs s'
   \<and> left_only DiffComparer l r x s' = (Ok (), print (L (l @ [x])) s')
   \<and> right_only DiffComparer l r x s' = (Ok (), print (R (r @ [x])) s')
   \<and> diff DiffComparer l r x s' = (Ok (), print (D (r @ [x])) s')"
proof -
  have q: "quiet_comparer DiffComparer" by (simp add: quiet_comparer_def)
  have 1: "fs (snd (diff_cmd json_load fuel a s)) = fs s"
    by (simp add: diff_cmd_def quiet_compare_projects [OF q])
  let ?Q = "\<lambda>s'. \<exists>ms. out s' = out s @ ms \<and> filter is_action ms = []"
  have "?Q (snd (compare_projects json_load fuel a DiffComparer
          (print (Banner ''Comparing changes'') s)))"
    by (rule compare_projects_inv [where Q = ?Q]) auto
  then have 2: "\<exists>ms. out (snd (diff_cmd json_load fuel a s)) = out s @ ms \<and> filter is_action ms = []"
    by (simp add: diff_cmd_def)
  from 1 2 show ?thesis by (simp add: quiet_validate [OF q])
qed

theorem diff_never_mutates_witness:
  "fs (snd (diff_cmd example_manifest 3 example_args example_state)) = example_tree
   \<and> out (snd (diff_cmd example_manifest 3 example_args example_state)) =
       [Banner ''Comparing changes'', WithProject [''origin''],
        L [''origin'', ''Assets'', ''Weapons'', ''Foo.meta''],
        L [''origin'', ''Assets'', ''Weapons'', ''old''],
        R [''game'', ''Assets'', ''Weapons'', ''mine''],
        D [''game'', ''Assets'', ''Weapons'', ''Foo'']]"
proof -
  have "out (snd (diff_cmd example_manifest 3 example_args example_state)) =
       [Banner ''Comparing changes'', WithProject [''origin''],
        L [''origin'', ''Assets'', ''Weapons'', ''Foo.meta''],
        L [''origin'', ''Assets'', ''Weapons'', ''old''],
        R [''game'', ''Assets'', ''Weapons'', ''mine''],
        D [''game'', ''Assets'', ''Weapons'', ''Foo'']]"
    by code_simp
  with diff_never_mutates [of example_manifest 3 example_args example_state]
  show ?thesis by (simp add: example_state_def)
qed

section \<open>Handlers and validation\<close>


text \<open>
  Claim C4. With the preview flag set, \<open>copy_asset\<close> and \<open>remove_asset\<close> announce the
  action and return with the file system as it was; a pull run (and a push run) with
  \<^verbatim>\<open>--preview\<close> ends, however it ends, with the whole file system, origin and local
  trees included, identical to the one it started with.
\<close>

theorem preview_never_mutates:
  assumes "preview c" and "args_preview a"
  shows "copy_asset c src dest s = (Ok (), print (Copying src dest) s)
       \<and> remove_asset c p s = (Ok (), print (Removing p) s)
       \<and> fs (snd (pull_cmd json_load fuel a s)) = fs s
       \<and> fs (snd (push_cmd json_load fuel a s)) = fs s"
proof -
  have "quiet_comparer (PullComparer (args_clean a) (args_preview a))"
    and "quiet_comparer (PushComparer (args_clean a) (args_preview a))"
    using assms(2) by (simp_all add: quiet_comparer_def)
  then show ?thesis
    using assms(1)
    by (simp add: pull_cmd_def push_cmd_def quiet_compare_projects copy_asset_preview
        remove_asset_preview)
qed

theorem preview_never_mutates_witness:
  "copy_asset (PullComparer True True) [''origin'', ''Assets'', ''Weapons'']
      [''game'', ''Assets'', ''Armour''] example_state =
     (Ok (), \<lparr>fs = example_tree, cwd = [''game''],
        out = [Copying [''origin'', ''Assets'', ''Weapons''] [''game'', ''Assets'', ''Armour'']]\<rparr>)
   \<and> fs (snd (pull_cmd example_manifest 3
        (example_args\<lparr>args_clean := True, args_preview := True\<rparr>) example_state)) = example_tree
   \<and> out (snd (pull_cmd example_manifest 3
        (example_args\<lparr>args_clean := True, args_preview := True\<rparr>) example_state)) =
      [Banner ''Pulling changes'', WithProject [''origin''],
       Copying [''origin'', ''Assets'', ''Weapons'', ''Foo.meta'']
         [''game'', ''Assets'', ''Weapons'', ''Foo.meta''],
       Copying [''origin'', ''Assets'', ''Weapons'', ''old'']
         [''game'', ''Assets'', ''Weapons'', ''old''],
       Removing [''game'', ''Assets'', ''Weapons'', ''mine''],
       Copying [''origin'', ''Assets'', ''Weapons'', ''Foo'']
         [''game'', ''Assets'', ''Weapons'', ''Foo'']]"
proof -
  have o: "out (snd (pull_cmd example_manifest 3
        (example_args\<lparr>args_clean := True, args_preview := True\<rparr>) example_state)) =
      [Banner ''Pulling changes'', WithProject [''origin''],
       Copying [''origin'', ''Assets'', ''Weapons'', ''Foo.meta'']
         [''game'', ''Assets'', ''Weapons'', ''Foo.meta''],
       Copying [''origin'', ''Assets'', ''Weapons'', ''old'']
         [''game'', ''Assets'', ''Weapons'', ''old''],
       Removing [''game'', ''Assets'', ''Weapons'', ''mine''],
       Copying [''origin'', ''Assets'', ''Weapons'', ''Foo'']
         [''game'', ''Assets'', ''Weapons'', ''Foo'']]"
    by code_simp
  have "preview (PullComparer True True)"
    and "args_preview (example_args\<lparr>args_clean := True, args_preview := True\<rparr>)"
    by simp_all
  from preview_never_mutates [OF this, of "[''origin'', ''Assets'', ''Weapons'']"
      "[''game'', ''Assets'', ''Armour'']" example_state "[]" example_manifest 3] o
  show ?thesis
    by (simp add: example_state_def print_def)
qed

text \<open>What \<open>validate\<close> returns, for every comparer.\<close>

lemma validate_result:
  "(fst (validate c origin local s) = Ok True \<longleftrightarrow> isdir (fs s) origin \<and> isdir (fs s) local)
   \<and> (isdir (fs s) origin \<and> isdir (fs s) local \<longrightarrow> validate c origin local s = (Ok True, s))
   \<and> (quiet_comparer c \<longrightarrow>
        fst (validate c origin local s) = Ok (isdir (fs s) origin \<and> isdir (fs s) local)
        \<and> fs (snd (validate c origin local s)) = fs s)
   \<and> fst (validate c origin local s) \<noteq> OutOfFuel
   \<and> (\<forall>e. fst (validate c origin local s) = Raise e \<longrightarrow>
        \<not> preview c \<and>
        ((\<exists>cl. c = PullComparer cl False) \<and> \<not> isdir (fs s) local
           \<and> fst (copy_asset c origin local s) = Raise e
         \<or> (\<exists>cl. c = PushComparer cl False) \<and> isdir (fs s) local \<and> \<not> isdir (fs s) origin
           \<and> fst (copy_asset c local origin s) = Raise e))"
proof -
  have nf: "fst (copy_asset c' a b s) \<noteq> OutOfFuel" for c' a b
    by (auto simp: copy_asset_def Let_def split: sum.splits)
  show ?thesis
  proof (cases c)
    case DiffComparer
    then show ?thesis by (simp add: quiet_comparer_def)
  next
    case (PullComparer cl pv)
    show ?thesis
    proof (cases "copy_asset (PullComparer cl pv) origin local s")
      case (Pair r s')
      with PullComparer nf [of "PullComparer cl pv" origin local] show ?thesis
        by (cases r) (auto simp: quiet_comparer_def bind_def copy_asset_preview)
    qed
  next
    case (PushComparer cl pv)
    show ?thesis
    proof (cases "copy_asset (PushComparer cl pv) local origin s")
      case (Pair r s')
      with PushComparer nf [of "PushComparer cl pv" local origin] show ?thesis
        by (cases r) (auto simp: quiet_comparer_def bind_def copy_asset_preview)
    qed
  qed
qed

text \<open>
  Claim C5. \<open>validate\<close> returns \<open>True\<close> exactly when both paths are directories, and
  for every other pair the claim expects \<open>False\<close> and no exception. With neither side
  present, the reporting comparer and the push comparer return \<open>False\<close>, as the claim
  says; the pull comparer raises instead: it tests the origin (line 92) only after the
  bootstrap copy from it (line 89).
\<close>

theorem validate_pull_raises_without_origin:
  "\<not> isdir (fs example_state) [''origin'', ''Assets'', ''Armour'']
   \<and> \<not> isdir (fs example_state) [''game'', ''Assets'', ''Armour'']
   \<and> fst (validate DiffComparer [''origin'', ''Assets'', ''Armour'']
        [''game'', ''Assets'', ''Armour''] example_state) = Ok False
   \<and> validate (PushComparer False False) [''origin'', ''Assets'', ''Armour'']
        [''game'', ''Assets'', ''Armour''] example_state = (Ok False, example_state)
   \<and> validate (PullComparer False False) [''origin'', ''Assets'', ''Armour'']
        [''game'', ''Assets'', ''Armour''] example_state =
       (Raise FileNotFoundError,
        example_state\<lparr>out := [Copying [''origin'', ''Assets'', ''Armour'']
           [''game'', ''Assets'', ''Armour'']]\<rparr>)"
  by code_simp





section \<open>Classification of the entries\<close>

text \<open>
  Claim C9. For every comparison of a walk (directories listed in one file system,
  common names stat'ed and compared in a possibly later one), no name of
  \<open>left_only\<close>, \<open>right_only\<close> or \<open>diff_files\<close> is a key of \<open>subdirs\<close>, whose keys
  are the common directories.
\<close>

theorem dircmp_subdirs_disjoint:
  assumes "phase0 t left right = Inr (left_list, right_list)"
    and "phase1 left_list right_list = (common, left_names, right_names)"
    and "phase2 t2 left right common = (common_dirs, common_files, common_funny)"
    and "phase3 t2 left right common_files = (same_files, diff_files, funny_files)"
  shows "set left_names \<inter> set common_dirs = {}
       \<and> set right_names \<inter> set common_dirs = {}
       \<and> set diff_files \<inter> set common_dirs = {}"
  using assms(2-4)
  by (auto simp: phase1_def phase2_def phase3_def)

theorem dircmp_subdirs_disjoint_witness:
  "phase0 walk_tree [''o''] [''l''] = Inr ([''a'', ''gone'', ''sub'', ''x''], [''b'', ''sub'', ''x''])
   \<and> phase1 [''a'', ''gone'', ''sub'', ''x''] [''b'', ''sub'', ''x''] =
       ([''sub'', ''x''], [''a'', ''gone''], [''b''])
   \<and> phase2 walk_tree [''o''] [''l''] [''sub'', ''x''] = ([''sub''], [], [''x''])
   \<and> phase3 walk_tree [''o''] [''l''] [] = ([], [], [])
   \<and> set [''a'', ''gone''] \<inter> set [''sub''] = {}
   \<and> set [''b''] \<inter> set [''sub''] = {}"
proof -
  have 0: "phase0 walk_tree [''o''] [''l''] =
      Inr ([''a'', ''gone'', ''sub'', ''x''], [''b'', ''sub'', ''x''])"
    by code_simp
  have 1: "phase1 [''a'', ''gone'', ''sub'', ''x''] [''b'', ''sub'', ''x''] =
       ([''sub'', ''x''], [''a'', ''gone''], [''b''])"
    by code_simp
  have 2: "phase2 walk_tree [''o''] [''l''] [''sub'', ''x''] = ([''sub''], [], [''x''])"
    by code_simp
  have 3: "phase3 walk_tree [''o''] [''l''] [] = ([], [], [])"
    by code_simp
  from dircmp_subdirs_disjoint [OF 0 1 2 3] 0 1 2 3 show ?thesis
    by simp
qed

section \<open>Reading the file system after a write\<close>

lemma lookup_append:
  "lookup t (p @ q) = (case lookup t p of None \<Rightarrow> None | Some n \<Rightarrow> lookup n q)"
proof (induction p arbitrary: t)
  case Nil
  then show ?case by simp
next
  case (Cons x p)
  then show ?case by (cases t) (auto split: option.splits)
qed

lemma lookup_File: "lookup (File c m) q = (if q = [] then Some (File c m) else None)"
  by (cases q) auto








lemma isfile_File: "isfile (File c m) q = (q = [])"
  by (simp add: isfile_def lookup_File)

lemma isdir_File: "isdir (File c m) q = False"
  by (simp add: isdir_def lookup_File)































lemma exists_child:
  assumes "lookup t p = Some (Dir es)"
  shows "exists t (p @ [y]) \<longleftrightarrow> y \<in> fst ` set es"
proof -
  have "exists t (p @ [y]) \<longleftrightarrow> map_of es y \<noteq> None"
    using assms by (auto simp: exists_def lookup_append split: option.splits)
  then show ?thesis by (simp add: map_of_eq_None_iff)
qed

lemma set_listing:
  assumes "isdir t p"
  shows "set (listing t p) = {y. exists t (p @ [y]) \<and> y \<notin> set (hide @ DEFAULT_IGNORES)}"
proof -
  from assms obtain es where es: "lookup t p = Some (Dir es)"
    by (auto simp: isdir_def split: option.splits node.splits)
  then show ?thesis
    by (auto simp: listing_def listdir_def filter_names_def exists_child [OF es])
qed

lemma listing_not_dir: "\<not> isdir t p \<Longrightarrow> listing t p = []"
  by (auto simp: isdir_def listing_def listdir_def split: option.splits node.splits)

lemma sorted_listing: "sorted (listing t p)"
  by (auto simp: listing_def split: sum.splits)

lemma distinct_listing: "distinct (listing t p)"
  by (auto simp: listing_def listdir_def filter_names_def split: sum.splits option.splits node.splits)

lemma listing_cong:
  assumes "isdir t p" and "isdir t' p'"
    and "\<And>y. exists t' (p' @ [y]) = exists t (p @ [y])"
  shows "listing t' p' = listing t p"
proof (rule sorted_distinct_set_unique)
  show "set (listing t' p') = set (listing t p)"
    by (simp add: set_listing assms)
qed (simp_all add: sorted_listing distinct_listing)




section \<open>Loops of copies and removals\<close>








section \<open>The walk, level by level\<close>
















section \<open>Push with the clean flag\<close>









section \<open>Pull, twice\<close>














section \<open>A name that is a file on one side and a directory on the other\<close>






































end
